theory Spec2Isabelle
  imports Complex_Main
begin

section \<open>JavaScript values\<close>

text \<open>
  The values that flow through \<^verbatim>\<open>script.js\<close>: \<^verbatim>\<open>null\<close>, \<^verbatim>\<open>undefined\<close> and
  numbers. A number is \<^verbatim>\<open>NaN\<close>, one of the two infinities, or finite. Finite numbers
  are modelled as reals: arithmetic on them is exact, so the rounding and the overflow
  of IEEE doubles (and the sign of zero) are outside this model.
\<close>

datatype jsval = Null | Undefined | NaN | PInf | NInf | Num real

text \<open>ToNumber: \<^verbatim>\<open>null\<close> becomes 0 and \<^verbatim>\<open>undefined\<close> becomes NaN.\<close>

fun toNumber :: "jsval \<Rightarrow> jsval" where
  "toNumber Null = Num 0"
| "toNumber Undefined = NaN"
| "toNumber v = v"

fun num_neg :: "jsval \<Rightarrow> jsval" where
  "num_neg (Num a) = Num (- a)"
| "num_neg PInf = NInf"
| "num_neg NInf = PInf"
| "num_neg v = NaN"

fun num_add :: "jsval \<Rightarrow> jsval \<Rightarrow> jsval" where
  "num_add (Num a) (Num b) = Num (a + b)"
| "num_add (Num a) PInf = PInf"
| "num_add (Num a) NInf = NInf"
| "num_add PInf (Num b) = PInf"
| "num_add NInf (Num b) = NInf"
| "num_add PInf PInf = PInf"
| "num_add NInf NInf = NInf"
| "num_add v w = NaN"

fun num_mul :: "jsval \<Rightarrow> jsval \<Rightarrow> jsval" where
  "num_mul (Num a) (Num b) = Num (a * b)"
| "num_mul (Num a) PInf = (if a = 0 then NaN else if 0 < a then PInf else NInf)"
| "num_mul (Num a) NInf = (if a = 0 then NaN else if 0 < a then NInf else PInf)"
| "num_mul PInf (Num b) = (if b = 0 then NaN else if 0 < b then PInf else NInf)"
| "num_mul NInf (Num b) = (if b = 0 then NaN else if 0 < b then NInf else PInf)"
| "num_mul PInf PInf = PInf"
| "num_mul NInf NInf = PInf"
| "num_mul PInf NInf = NInf"
| "num_mul NInf PInf = NInf"
| "num_mul v w = NaN"

fun num_div :: "jsval \<Rightarrow> jsval \<Rightarrow> jsval" where
  "num_div (Num a) (Num b) =
     (if b = 0 then (if a = 0 then NaN else if 0 < a then PInf else NInf)
      else Num (a / b))"
| "num_div (Num a) PInf = Num 0"
| "num_div (Num a) NInf = Num 0"
| "num_div PInf (Num b) = (if 0 \<le> b then PInf else NInf)"
| "num_div NInf (Num b) = (if 0 \<le> b then NInf else PInf)"
| "num_div v w = NaN"

fun num_lt :: "jsval \<Rightarrow> jsval \<Rightarrow> bool" where
  "num_lt (Num a) (Num b) = (a < b)"
| "num_lt (Num a) PInf = True"
| "num_lt NInf (Num b) = True"
| "num_lt NInf PInf = True"
| "num_lt v w = False"

fun isNaN :: "jsval \<Rightarrow> bool" where
  "isNaN NaN = True"
| "isNaN v = False"

text \<open>The binary operators of the source, each applying ToNumber to its operands.\<close>

definition jadd :: "jsval \<Rightarrow> jsval \<Rightarrow> jsval" where
  "jadd a b = num_add (toNumber a) (toNumber b)"

definition jsub :: "jsval \<Rightarrow> jsval \<Rightarrow> jsval" where
  "jsub a b = num_add (toNumber a) (num_neg (toNumber b))"

definition jmul :: "jsval \<Rightarrow> jsval \<Rightarrow> jsval" where
  "jmul a b = num_mul (toNumber a) (toNumber b)"

definition jdiv :: "jsval \<Rightarrow> jsval \<Rightarrow> jsval" where
  "jdiv a b = num_div (toNumber a) (toNumber b)"

definition jneg :: "jsval \<Rightarrow> jsval" where
  "jneg a = num_neg (toNumber a)"

text \<open>\<^verbatim>\<open>a < b\<close>, \<^verbatim>\<open>a > b\<close>, \<^verbatim>\<open>a <= b\<close>, \<^verbatim>\<open>a >= b\<close>: false as soon as an operand is NaN.\<close>

definition jlt :: "jsval \<Rightarrow> jsval \<Rightarrow> bool" where
  "jlt a b = num_lt (toNumber a) (toNumber b)"

definition jgt :: "jsval \<Rightarrow> jsval \<Rightarrow> bool" where
  "jgt a b = num_lt (toNumber b) (toNumber a)"

definition jle :: "jsval \<Rightarrow> jsval \<Rightarrow> bool" where
  "jle a b = (\<not> isNaN (toNumber a) \<and> \<not> isNaN (toNumber b) \<and> \<not> num_lt (toNumber b) (toNumber a))"

definition jge :: "jsval \<Rightarrow> jsval \<Rightarrow> bool" where
  "jge a b = (\<not> isNaN (toNumber a) \<and> \<not> isNaN (toNumber b) \<and> \<not> num_lt (toNumber a) (toNumber b))"

text \<open>\<^verbatim>\<open>a === b\<close> does not convert; NaN is not equal to itself.\<close>

definition strict_eq :: "jsval \<Rightarrow> jsval \<Rightarrow> bool" where
  "strict_eq a b = (a = b \<and> \<not> isNaN a)"

text \<open>ToBoolean, for \<^verbatim>\<open>x ? a : b\<close>.\<close>

fun truthy :: "jsval \<Rightarrow> bool" where
  "truthy Null = False"
| "truthy Undefined = False"
| "truthy NaN = False"
| "truthy (Num a) = (a \<noteq> 0)"
| "truthy v = True"

fun math_abs :: "jsval \<Rightarrow> jsval" where
  "math_abs (Num a) = Num \<bar>a\<bar>"
| "math_abs NInf = PInf"
| "math_abs v = toNumber v"

subsection \<open>Arrays\<close>

text \<open>
  An array is its list of elements. Reading past the end gives \<^verbatim>\<open>undefined\<close>; writing
  past the end extends the array, and the skipped positions are holes, which read as
  \<^verbatim>\<open>undefined\<close>.
\<close>

definition js_get :: "jsval list \<Rightarrow> nat \<Rightarrow> jsval" where
  "js_get xs i = (if i < length xs then xs ! i else Undefined)"

definition js_set :: "jsval list \<Rightarrow> nat \<Rightarrow> jsval \<Rightarrow> jsval list" where
  "js_set xs i v =
     (if i < length xs then xs[i := v]
      else xs @ replicate (i - length xs) Undefined @ [v])"

section \<open>Indicators\<close>

subsection \<open>calculateSMA\<close>

text \<open>
  The loop state is \<open>(result, sum)\<close>. A period is a \<open>nat\<close>; \<^verbatim>\<open>i >= period - 1\<close> is
  evaluated over the integers, as the source does.
\<close>

definition sma_step :: "jsval list \<Rightarrow> nat \<Rightarrow> nat \<Rightarrow> jsval list \<times> jsval \<Rightarrow> jsval list \<times> jsval" where
  "sma_step values period i st =
     (let (result, sum) = st;
          sum = jadd sum (js_get values i);
          sum = (if i \<ge> period then jsub sum (js_get values (i - period)) else sum);
          result = (if int i \<ge> int period - 1
                    then js_set result i (jdiv sum (Num (real period))) else result)
      in (result, sum))"

definition calculateSMA :: "jsval list \<Rightarrow> nat \<Rightarrow> jsval list" where
  "calculateSMA values period =
     fst (fold (sma_step values period) [0..<length values]
            (replicate (length values) Null, Num 0))"


subsection \<open>calculateEMA\<close>

text \<open>
  The loop state is \<open>(ema, prev)\<close>; \<open>prev\<close> starts as \<^verbatim>\<open>undefined\<close> and is seeded with
  the first price. \<open>ema_loop values period n\<close> is the state after the iterations
  \<open>i = 0, ..., n - 1\<close>.
\<close>

definition ema_step :: "jsval list \<Rightarrow> nat \<Rightarrow> jsval \<Rightarrow> nat \<Rightarrow> jsval list \<times> jsval \<Rightarrow> jsval list \<times> jsval" where
  "ema_step values period k i st =
     (let (ema, prev) = st;
          price = js_get values i;
          prev = (if strict_eq prev Undefined then price
                  else jadd (jmul price k) (jmul prev (jsub (Num 1) k)));
          ema = (if int i \<ge> int period - 1 then js_set ema i prev else ema)
      in (ema, prev))"

definition ema_loop :: "jsval list \<Rightarrow> nat \<Rightarrow> nat \<Rightarrow> jsval list \<times> jsval" where
  "ema_loop values period n =
     (let k = jdiv (Num 2) (jadd (Num (real period)) (Num 1))
      in fold (ema_step values period k) [0..<n] (replicate (length values) Null, Undefined))"

definition calculateEMA :: "jsval list \<Rightarrow> nat \<Rightarrow> jsval list" where
  "calculateEMA values period = fst (ema_loop values period (length values))"

text \<open>The running value: \<open>prev\<close> at the end of iteration \<open>i\<close>.\<close>

definition EMA_running :: "jsval list \<Rightarrow> nat \<Rightarrow> nat \<Rightarrow> jsval" where
  "EMA_running values period i = snd (ema_loop values period (Suc i))"

text \<open>The recurrence of the specification, with smoothing factor \<open>k\<close>.\<close>

fun EMA_recurrence :: "real \<Rightarrow> real list \<Rightarrow> nat \<Rightarrow> real" where
  "EMA_recurrence k xs 0 = xs ! 0"
| "EMA_recurrence k xs (Suc i) = xs ! Suc i * k + EMA_recurrence k xs i * (1 - k)"

subsection \<open>calculateRSI\<close>

text \<open>The seeding loop, over \<open>i = 1, ..., period\<close>, with state \<open>(gains, losses)\<close>.\<close>

definition rsi_seed_step :: "jsval list \<Rightarrow> nat \<Rightarrow> jsval \<times> jsval \<Rightarrow> jsval \<times> jsval" where
  "rsi_seed_step values i st =
     (let (gains, losses) = st;
          change = jsub (js_get values i) (js_get values (i - 1))
      in if jge change (Num 0) then (jadd gains change, losses)
         else (gains, jsub losses change))"

text \<open>
  The value stored at an index, from the two averages; the source writes these lines
  twice, once after the seed and once in the smoothing loop.
\<close>

definition rsi_value :: "jsval \<Rightarrow> jsval \<Rightarrow> jsval" where
  "rsi_value avgGain avgLoss =
     (if strict_eq avgLoss (Num 0) then Num 100
      else let rs = jdiv avgGain avgLoss
           in jsub (Num 100) (jdiv (Num 100) (jadd (Num 1) rs)))"

text \<open>The smoothing loop, with state \<open>(rsi, avgGain, avgLoss)\<close>.\<close>

definition rsi_step :: "jsval list \<Rightarrow> nat \<Rightarrow> nat \<Rightarrow> jsval list \<times> jsval \<times> jsval \<Rightarrow> jsval list \<times> jsval \<times> jsval" where
  "rsi_step values period i st =
     (let (rsi, avgGain, avgLoss) = st;
          change = jsub (js_get values i) (js_get values (i - 1));
          gain = (if jgt change (Num 0) then change else Num 0);
          loss = (if jlt change (Num 0) then jneg change else Num 0);
          avgGain = jdiv (jadd (jmul avgGain (jsub (Num (real period)) (Num 1))) gain)
                         (Num (real period));
          avgLoss = jdiv (jadd (jmul avgLoss (jsub (Num (real period)) (Num 1))) loss)
                         (Num (real period))
      in (js_set rsi i (rsi_value avgGain avgLoss), avgGain, avgLoss))"

definition rsi_init :: "jsval list \<Rightarrow> nat \<Rightarrow> jsval list \<times> jsval \<times> jsval" where
  "rsi_init values period =
     (let rsi = replicate (length values) Null;
          (gains, losses) = fold (rsi_seed_step values) [1..<period + 1] (Num 0, Num 0);
          avgGain = jdiv gains (Num (real period));
          avgLoss = jdiv losses (Num (real period))
      in (js_set rsi period (rsi_value avgGain avgLoss), avgGain, avgLoss))"

text \<open>\<open>rsi_loop values period n\<close>: the state once the smoothing loop has run up to \<open>n - 1\<close>.\<close>

definition rsi_loop :: "jsval list \<Rightarrow> nat \<Rightarrow> nat \<Rightarrow> jsval list \<times> jsval \<times> jsval" where
  "rsi_loop values period n =
     fold (rsi_step values period) [period + 1..<n] (rsi_init values period)"

definition calculateRSI :: "jsval list \<Rightarrow> nat \<Rightarrow> jsval list" where
  "calculateRSI values period = fst (rsi_loop values period (length values))"


subsection \<open>calculateMACD\<close>

record macd =
  macdLine :: "jsval list"
  signalLine :: "jsval list"

definition calculateMACD :: "jsval list \<Rightarrow> nat \<Rightarrow> nat \<Rightarrow> nat \<Rightarrow> macd" where
  "calculateMACD values fastPeriod slowPeriod signalPeriod =
     (let emaFast = calculateEMA values fastPeriod;
          emaSlow = calculateEMA values slowPeriod;
          line = map (\<lambda>i. if strict_eq (js_get emaFast i) Null \<or> strict_eq (js_get emaSlow i) Null
                           then Null
                           else jsub (js_get emaFast i) (js_get emaSlow i))
                     [0..<length values];
          signal = calculateEMA (map (\<lambda>v. if strict_eq v Null then Num 0 else v) line) signalPeriod
      in \<lparr>macdLine = line, signalLine = signal\<rparr>)"

section \<open>runBacktest\<close>

record 'd pricepoint =
  date :: 'd
  close :: jsval

record params =
  maPeriod :: nat
  rsiPeriod :: nat
  rsiOverbought :: jsval
  macdFast :: nat
  macdSlow :: nat
  macdSignal :: nat

text \<open>A trade; \<open>entryDate\<close> is an option because the local it is copied from starts as \<^verbatim>\<open>null\<close>.\<close>

record 'd trade =
  entryDate :: "'d option"
  exitDate :: 'd
  entryPrice :: jsval
  exitPrice :: jsval
  pnl :: jsval

text \<open>The locals of the simulation loop: \<^verbatim>\<open>trades\<close>, \<^verbatim>\<open>inTrade\<close>, \<^verbatim>\<open>entryPrice\<close>, \<^verbatim>\<open>entryDate\<close>.\<close>

record 'd sim =
  sim_trades :: "'d trade list"
  inTrade :: bool
  sim_entryPrice :: jsval
  sim_entryDate :: "'d option"

record 'd backtest =
  trades :: "'d trade list"
  winRate :: jsval
  totalTrades :: nat
  profitFactor :: jsval

definition buySignal ::
  "jsval list \<Rightarrow> jsval list \<Rightarrow> jsval list \<Rightarrow> jsval list \<Rightarrow> jsval list \<Rightarrow> jsval \<Rightarrow> nat \<Rightarrow> bool" where
  "buySignal closes sma rsi line signal overbought i =
     (jgt (js_get closes i) (js_get sma i) \<and>
      \<not> strict_eq (js_get line (i - 1)) Null \<and>
      \<not> strict_eq (js_get line i) Null \<and>
      jle (js_get line (i - 1)) (js_get signal (i - 1)) \<and>
      jgt (js_get line i) (js_get signal i) \<and>
      \<not> strict_eq (js_get rsi i) Null \<and>
      jlt (js_get rsi i) overbought)"

definition sellSignal :: "jsval list \<Rightarrow> jsval list \<Rightarrow> nat \<Rightarrow> bool" where
  "sellSignal line signal i =
     (jge (js_get line (i - 1)) (js_get signal (i - 1)) \<and> jlt (js_get line i) (js_get signal i))"

text \<open>One iteration of the loop over \<open>i = 1, ..., data.length - 1\<close>.\<close>

definition sim_step ::
  "'d pricepoint list \<Rightarrow> jsval list \<Rightarrow> jsval list \<Rightarrow> jsval list \<Rightarrow> jsval list \<Rightarrow> jsval list \<Rightarrow> jsval
     \<Rightarrow> nat \<Rightarrow> 'd sim \<Rightarrow> 'd sim" where
  "sim_step data closes sma rsi line signal overbought i st =
     (if \<not> inTrade st then
        (if buySignal closes sma rsi line signal overbought i
         then st\<lparr>inTrade := True,
                 sim_entryPrice := js_get closes i,
                 sim_entryDate := Some (date (data ! i))\<rparr>
         else st)
      else
        (if sellSignal line signal i \<or> int i = int (length data) - 1
         then (let exitPrice = js_get closes i;
                   exitDate = date (data ! i);
                   pnl = jsub exitPrice (sim_entryPrice st)
               in st\<lparr>sim_trades := sim_trades st @
                         [\<lparr>entryDate = sim_entryDate st, exitDate = exitDate,
                           entryPrice = sim_entryPrice st, exitPrice = exitPrice, pnl = pnl\<rparr>],
                       inTrade := False\<rparr>)
         else st))"

text \<open>
  \<open>sim_loop data params n\<close>: the locals once the iterations \<open>i = 1, ..., n - 1\<close> have run;
  the source runs it to \<open>n = data.length\<close>.
\<close>

definition sim_loop :: "'d pricepoint list \<Rightarrow> params \<Rightarrow> nat \<Rightarrow> 'd sim" where
  "sim_loop data params n =
     (let closes = map close data;
          sma = calculateSMA closes (maPeriod params);
          rsi = calculateRSI closes (rsiPeriod params);
          m = calculateMACD closes (macdFast params) (macdSlow params) (macdSignal params)
      in fold (sim_step data closes sma rsi (macdLine m) (signalLine m) (rsiOverbought params))
           [1..<n]
           \<lparr>sim_trades = [], inTrade = False, sim_entryPrice = Num 0, sim_entryDate = None\<rparr>)"

text \<open>The performance metrics, computed from the trades.\<close>

definition metrics :: "'d trade list \<Rightarrow> 'd backtest" where
  "metrics ts =
     (let totalTrades = length ts;
          wins = length (filter (\<lambda>t. jgt (pnl t) (Num 0)) ts);
          winRate = (if totalTrades \<noteq> 0
                     then jmul (jdiv (Num (real wins)) (Num (real totalTrades))) (Num 100)
                     else Num 0);
          grossProfit = fold (\<lambda>t sum. jadd sum (pnl t))
                             (filter (\<lambda>t. jgt (pnl t) (Num 0)) ts) (Num 0);
          grossLoss = fold (\<lambda>t sum. jadd sum (math_abs (pnl t)))
                           (filter (\<lambda>t. jlt (pnl t) (Num 0)) ts) (Num 0);
          profitFactor = (if truthy grossLoss then jdiv grossProfit grossLoss else PInf)
      in \<lparr>trades = ts, winRate = winRate, totalTrades = totalTrades,
          profitFactor = profitFactor\<rparr>)"

definition runBacktest :: "'d pricepoint list \<Rightarrow> params \<Rightarrow> 'd backtest" where
  "runBacktest data params = metrics (sim_trades (sim_loop data params (length data)))"

section \<open>Reference values and loop invariants\<close>


text \<open>
  \<open>calculateEMA\<close>, before iteration \<open>n\<close>: \<open>prev\<close> is the recurrence at \<open>n - 1\<close>
  (\<^verbatim>\<open>undefined\<close> before the first iteration), and the array holds it at the positions
  below \<open>n\<close> that are past the warm-up.
\<close>

definition ema_inv :: "real list \<Rightarrow> nat \<Rightarrow> nat \<Rightarrow> jsval list \<times> jsval \<Rightarrow> bool" where
  "ema_inv xs period n st =
     (length (fst st) = length xs \<and>
      (\<forall>i<length xs. fst st ! i =
          (if i < n \<and> int i \<ge> int period - 1
           then Num (EMA_recurrence (2 / (real period + 1)) xs i) else Null)) \<and>
      snd st = (if n = 0 then Undefined
                else Num (EMA_recurrence (2 / (real period + 1)) xs (n - 1))))"



text \<open>
  The trade opened at index \<open>fst p\<close> and closed at index \<open>snd p\<close>, and the lists of index
  pairs in which each pair starts at or after \<open>lo\<close>, ends after it starts, and is
  followed by pairs that start after it has ended.
\<close>

definition trade_at :: "'d pricepoint list \<Rightarrow> nat \<times> nat \<Rightarrow> 'd trade" where
  "trade_at data p =
     \<lparr>entryDate = Some (date (data ! fst p)), exitDate = date (data ! snd p),
      entryPrice = close (data ! fst p), exitPrice = close (data ! snd p),
      pnl = jsub (close (data ! snd p)) (close (data ! fst p))\<rparr>"

fun chained :: "nat \<Rightarrow> (nat \<times> nat) list \<Rightarrow> bool" where
  "chained lo [] = True"
| "chained lo ((e, x) # ps) = (lo \<le> e \<and> e < x \<and> chained (Suc x) ps)"

fun next_free :: "nat \<Rightarrow> (nat \<times> nat) list \<Rightarrow> nat" where
  "next_free lo [] = lo"
| "next_free lo ((e, x) # ps) = next_free (Suc x) ps"

text \<open>
  The simulation loop, before iteration \<open>n\<close>: the trades so far are those of a chain of
  index pairs below \<open>n\<close>, and an open position was entered at an index below \<open>n\<close> that
  no earlier trade covers.
\<close>

definition sim_inv :: "'d pricepoint list \<Rightarrow> nat \<Rightarrow> 'd sim \<Rightarrow> bool" where
  "sim_inv data n st =
     (\<exists>ps. sim_trades st = map (trade_at data) ps \<and> chained 1 ps \<and> next_free 1 ps \<le> n \<and>
           (inTrade st \<longrightarrow>
              (\<exists>e. next_free 1 ps \<le> e \<and> e < n \<and>
                   sim_entryPrice st = close (data ! e) \<and>
                   sim_entryDate st = Some (date (data ! e)))))"

text \<open>A series of finite closes whose dates are its positions, and a configuration, for examples.\<close>

definition indexed_series :: "real list \<Rightarrow> nat pricepoint list" where
  "indexed_series cs = map (\<lambda>i. \<lparr>date = i, close = Num (cs ! i)\<rparr>) [0..<length cs]"

definition example_series :: "nat pricepoint list" where
  "example_series = indexed_series [10, 8, 7, 9, 5, 5]"

definition example_params :: params where
  "example_params =
     \<lparr>maPeriod = 2, rsiPeriod = 2, rsiOverbought = Num 70,
      macdFast = 1, macdSlow = 2, macdSignal = 2\<rparr>"

text \<open>The replacement of \<^verbatim>\<open>null\<close> by 0.\<close>

definition null_as_zero :: "jsval \<Rightarrow> jsval" where
  "null_as_zero v = (if v = Null then Num 0 else v)"

text \<open>
  The quantities of the specification, over the finite profits of the trades: the number
  of winning trades, the summed profits and the summed absolute losses.
\<close>

fun num_of :: "jsval \<Rightarrow> real" where
  "num_of (Num a) = a"
| "num_of v = 0"

definition is_num :: "jsval \<Rightarrow> bool" where
  "is_num v = (case v of Num a \<Rightarrow> True | _ \<Rightarrow> False)"

definition wins_spec :: "'d trade list \<Rightarrow> nat" where
  "wins_spec ts = length (filter (\<lambda>t. 0 < num_of (pnl t)) ts)"

definition grossProfit_spec :: "'d trade list \<Rightarrow> real" where
  "grossProfit_spec ts = (\<Sum>t\<leftarrow>filter (\<lambda>t. 0 < num_of (pnl t)) ts. num_of (pnl t))"

definition grossLoss_spec :: "'d trade list \<Rightarrow> real" where
  "grossLoss_spec ts = (\<Sum>t\<leftarrow>filter (\<lambda>t. num_of (pnl t) < 0) ts. \<bar>num_of (pnl t)\<bar>)"

definition numeric_series :: "'d pricepoint list \<Rightarrow> bool" where
  "numeric_series data = list_all (\<lambda>p. is_num (close p)) data"

section \<open>Properties\<close>

subsection \<open>The moving average is the mean of its window\<close>






subsection \<open>The exponential average follows its recurrence\<close>

lemma ema_k: "jdiv (Num 2) (jadd (Num (real period)) (Num 1)) = Num (2 / (real period + 1))"
proof -
  have "real period + 1 \<noteq> 0" by (metis add.commute of_nat_Suc of_nat_neq_0 Suc_eq_plus1)
  then show ?thesis by (simp add: jdiv_def jadd_def)
qed

lemma ema_step_inv:
  assumes "n < length xs" and "ema_inv xs period n st"
  shows "ema_inv xs period (Suc n)
           (ema_step (map Num xs) period (Num (2 / (real period + 1))) n st)"
proof -
  obtain e p where st: "st = (e, p)" by (cases st)
  define k where "k = 2 / (real period + 1)"
  from assms(2) st have len: "length e = length xs"
    and e: "\<And>i. i < length xs \<Longrightarrow> e ! i =
          (if i < n \<and> int i \<ge> int period - 1 then Num (EMA_recurrence k xs i) else Null)"
    and p: "p = (if n = 0 then Undefined else Num (EMA_recurrence k xs (n - 1)))"
    by (simp_all add: ema_inv_def k_def)
  have prev: "(if strict_eq p Undefined then js_get (map Num xs) n
               else jadd (jmul (js_get (map Num xs) n) (Num k)) (jmul p (jsub (Num 1) (Num k))))
              = Num (EMA_recurrence k xs n)"
  proof (cases n)
    case 0
    then show ?thesis using assms(1) by (simp add: p strict_eq_def js_get_def)
  next
    case (Suc m)
    then show ?thesis using assms(1)
      by (simp add: p strict_eq_def js_get_def jadd_def jmul_def jsub_def)
  qed
  have step: "ema_step (map Num xs) period (Num k) n st =
     (if int n \<ge> int period - 1 then js_set e n (Num (EMA_recurrence k xs n)) else e,
      Num (EMA_recurrence k xs n))"
    by (simp add: st ema_step_def prev Let_def)
  show ?thesis
    unfolding ema_inv_def k_def [symmetric] step
    using len e assms(1) by (auto simp: js_set_def nth_list_update less_Suc_eq)
qed

lemma ema_loop_inv:
  assumes "n \<le> length xs"
  shows "ema_inv xs period n (ema_loop (map Num xs) period n)"
  using assms
proof (induction n)
  case 0
  then show ?case by (simp add: ema_inv_def ema_loop_def)
next
  case (Suc n)
  then have "ema_inv xs period n (ema_loop (map Num xs) period n)" and "n < length xs"
    by simp_all
  from ema_step_inv [OF this(2) this(1)]
  show ?case by (simp add: ema_loop_def ema_k Let_def)
qed

text \<open>
  Claim C5. For a sequence of finite numbers and \<open>k = 2 / (period + 1)\<close>, the running
  value of \<open>calculateEMA\<close> at the end of iteration \<open>i\<close> is the recurrence
  \<open>running[0] = values[0]\<close>, \<open>running[i] = values[i] * k + running[i - 1] * (1 - k)\<close>,
  at every index of the series, whatever the warm-up; the returned array has the input's
  length, holds the running value at every index \<open>i \<ge> period - 1\<close> and \<^verbatim>\<open>null\<close> at
  every index below. (The statement needs no assumption on the period; an empty series has
  no index.)
\<close>

theorem calculateEMA_recurrence:
  "length (calculateEMA (map Num xs) period) = length xs \<and>
   (\<forall>i<length xs.
      EMA_running (map Num xs) period i = Num (EMA_recurrence (2 / (real period + 1)) xs i) \<and>
      calculateEMA (map Num xs) period ! i =
        (if int i \<ge> int period - 1 then EMA_running (map Num xs) period i else Null))"
proof -
  have run: "EMA_running (map Num xs) period i = Num (EMA_recurrence (2 / (real period + 1)) xs i)"
    if "i < length xs" for i
    using ema_loop_inv [of "Suc i" xs period] that by (simp add: EMA_running_def ema_inv_def)
  from ema_loop_inv [of "length xs" xs period] run
  show ?thesis by (simp add: calculateEMA_def ema_inv_def)
qed

theorem calculateEMA_recurrence_witness:
  "(0::nat) < length [10, 8, 7 :: real] \<and> (2::nat) < length [10, 8, 7 :: real] \<and>
   EMA_running (map Num [10, 8, 7]) 2 0 = Num 10 \<and>
   calculateEMA (map Num [10, 8, 7]) 2 ! 0 = Null \<and>
   calculateEMA (map Num [10, 8, 7]) 2 ! 2 = Num (68 / 9)"
  using calculateEMA_recurrence [of "[10, 8, 7]" 2]
  by (simp add: eval_nat_numeral)

subsection \<open>The oscillator stays between 0 and 100\<close>










subsection \<open>The MACD line and its signal line\<close>

lemma strict_eq_Null [simp]: "strict_eq v Null \<longleftrightarrow> v = Null"
  by (auto simp: strict_eq_def)

lemma ema_step_length:
  "i < length (fst st) \<Longrightarrow> length (fst (ema_step values period k i st)) = length (fst st)"
  by (cases st) (simp add: ema_step_def Let_def js_set_def)

lemma ema_loop_length:
  "n \<le> length values \<Longrightarrow> length (fst (ema_loop values period n)) = length values"
proof (induction n)
  case 0
  then show ?case by (simp add: ema_loop_def)
next
  case (Suc n)
  then have "length (fst (ema_loop values period n)) = length values" "n < length values"
    by simp_all
  then show ?case
    using ema_step_length [of n "ema_loop values period n" "values" period]
    by (simp add: ema_loop_def Let_def)
qed

lemma calculateEMA_length: "length (calculateEMA values period) = length values"
  by (simp add: calculateEMA_def ema_loop_length)

lemma jsub_not_Null: "jsub a b \<noteq> Null"
proof -
  have "num_add x y \<noteq> Null" for x y
    by (cases x; cases y) simp_all
  then show ?thesis by (simp add: jsub_def)
qed

text \<open>
  Claim C7. For every array of values and all periods, the MACD line has the input's
  length; at each index it is the fast EMA minus the slow EMA when both are defined and
  \<^verbatim>\<open>null\<close> otherwise, so it is \<^verbatim>\<open>null\<close> exactly when one of the two EMAs is; and the
  signal line is \<open>calculateEMA\<close>, with the signal period, of the MACD line in which every
  \<^verbatim>\<open>null\<close> has been replaced by 0.
\<close>
theorem calculateMACD_lines:
  "length (macdLine (calculateMACD values fastPeriod slowPeriod signalPeriod)) = length values \<and>
   (\<forall>i<length values.
      macdLine (calculateMACD values fastPeriod slowPeriod signalPeriod) ! i =
        (if calculateEMA values fastPeriod ! i \<noteq> Null \<and> calculateEMA values slowPeriod ! i \<noteq> Null
         then jsub (calculateEMA values fastPeriod ! i) (calculateEMA values slowPeriod ! i)
         else Null) \<and>
      (macdLine (calculateMACD values fastPeriod slowPeriod signalPeriod) ! i = Null \<longleftrightarrow>
         calculateEMA values fastPeriod ! i = Null \<or> calculateEMA values slowPeriod ! i = Null)) \<and>
   signalLine (calculateMACD values fastPeriod slowPeriod signalPeriod) =
     calculateEMA
       (map (\<lambda>v. if v = Null then Num 0 else v)
          (macdLine (calculateMACD values fastPeriod slowPeriod signalPeriod)))
       signalPeriod"
  by (simp add: calculateMACD_def Let_def js_get_def calculateEMA_length jsub_not_Null)

theorem calculateMACD_lines_witness:
  "(2::nat) < length [Num 10, Num 8, Num 7] \<and> (0::nat) < length [Num 10, Num 8, Num 7] \<and>
   macdLine (calculateMACD [Num 10, Num 8, Num 7] 1 2 2) ! 0 = Null \<and>
   macdLine (calculateMACD [Num 10, Num 8, Num 7] 1 2 2) ! 2 = Num (- (5 / 9))"
proof -
  have "calculateEMA [Num 10, Num 8, Num 7] 1 = [Num 10, Num 8, Num 7]"
    and "calculateEMA [Num 10, Num 8, Num 7] 2 = [Null, Num (26 / 3), Num (68 / 9)]"
    by code_simp+
  then show ?thesis
    using calculateMACD_lines [of "[Num 10, Num 8, Num 7]" 1 2 2]
    by (simp add: jsub_def)
qed

subsection \<open>The simulator holds one position at a time\<close>

lemma chained_snoc:
  "chained lo (ps @ [(e, x)]) \<longleftrightarrow> chained lo ps \<and> next_free lo ps \<le> e \<and> e < x"
  by (induction lo ps rule: chained.induct) auto

lemma next_free_snoc: "next_free lo (ps @ [(e, x)]) = Suc x"
  by (induction lo ps rule: next_free.induct) auto

lemma next_free_ge: "chained lo ps \<Longrightarrow> lo \<le> next_free lo ps"
  by (induction lo ps rule: chained.induct) auto

lemma chained_nth:
  "chained lo ps \<Longrightarrow> k < length ps \<Longrightarrow>
     lo \<le> fst (ps ! k) \<and> fst (ps ! k) < snd (ps ! k) \<and> snd (ps ! k) < next_free lo ps \<and>
     (Suc k < length ps \<longrightarrow> snd (ps ! k) < fst (ps ! Suc k))"
proof (induction lo ps arbitrary: k rule: chained.induct)
  case (1 lo)
  then show ?case by simp
next
  case (2 lo e x ps)
  then have ch: "lo \<le> e" "e < x" "chained (Suc x) ps" by simp_all
  show ?case
  proof (cases k)
    case 0
    have "Suc x \<le> next_free (Suc x) ps" using ch(3) by (rule next_free_ge)
    moreover have "x < fst (ps ! 0)" if "0 < length ps"
      using "2.IH" [OF ch(3) that] by simp
    ultimately show ?thesis using 0 ch by simp
  next
    case (Suc j)
    with "2.prems" have j: "j < length ps" by simp
    from "2.IH" [OF ch(3) j] show ?thesis using Suc ch by simp
  qed
qed

lemma sim_step_inv:
  assumes "n < length data" and "sim_inv data n st"
  shows "sim_inv data (Suc n) (sim_step data (map close data) sma rsi line signal ob n st)"
proof -
  from assms(2) obtain ps where
    ps: "sim_trades st = map (trade_at data) ps" "chained 1 ps" "next_free 1 ps \<le> n"
    and ent: "inTrade st \<Longrightarrow> \<exists>e. next_free 1 ps \<le> e \<and> e < n \<and>
                   sim_entryPrice st = close (data ! e) \<and>
                   sim_entryDate st = Some (date (data ! e))"
    unfolding sim_inv_def by blast
  have cl: "js_get (map close data) n = close (data ! n)"
    using assms(1) by (simp add: js_get_def)
  show ?thesis
  proof (cases "inTrade st")
    case False
    show ?thesis
    proof (cases "buySignal (map close data) sma rsi line signal ob n")
      case True
      have "sim_step data (map close data) sma rsi line signal ob n st =
              st\<lparr>inTrade := True, sim_entryPrice := close (data ! n),
                 sim_entryDate := Some (date (data ! n))\<rparr>"
        using False True by (simp add: sim_step_def cl)
      then show ?thesis
        unfolding sim_inv_def using ps by (intro exI [of _ ps]) auto
    next
      case nobuy: False
      have "sim_step data (map close data) sma rsi line signal ob n st = st"
        using False nobuy by (simp add: sim_step_def)
      then show ?thesis
        unfolding sim_inv_def using ps False by (intro exI [of _ ps]) auto
    qed
  next
    case True
    from ent [OF True] obtain e where
      e: "next_free 1 ps \<le> e" "e < n" "sim_entryPrice st = close (data ! e)"
         "sim_entryDate st = Some (date (data ! e))" by blast
    show ?thesis
    proof (cases "sellSignal line signal n \<or> int n = int (length data) - 1")
      case exit: True
      have "sim_step data (map close data) sma rsi line signal ob n st =
              st\<lparr>sim_trades := sim_trades st @ [trade_at data (e, n)], inTrade := False\<rparr>"
        using True exit by (simp add: sim_step_def cl Let_def trade_at_def e)
      then show ?thesis
        unfolding sim_inv_def using ps e
        by (intro exI [of _ "ps @ [(e, n)]"]) (simp add: chained_snoc next_free_snoc)
    next
      case stay: False
      have "sim_step data (map close data) sma rsi line signal ob n st = st"
        using True stay by (simp add: sim_step_def)
      then show ?thesis
        unfolding sim_inv_def using ps e True
        by (intro exI [of _ ps]) auto
    qed
  qed
qed

lemma sim_loop_Suc:
  "0 < n \<Longrightarrow> sim_loop data params (Suc n) =
     sim_step data (map close data)
       (calculateSMA (map close data) (maPeriod params))
       (calculateRSI (map close data) (rsiPeriod params))
       (macdLine (calculateMACD (map close data) (macdFast params) (macdSlow params) (macdSignal params)))
       (signalLine (calculateMACD (map close data) (macdFast params) (macdSlow params) (macdSignal params)))
       (rsiOverbought params) n (sim_loop data params n)"
  by (simp add: sim_loop_def Let_def)

lemma sim_loop_inv:
  "n \<le> length data \<Longrightarrow> sim_inv data n (sim_loop data params n) \<or> n = 0"
proof (induction n)
  case 0
  then show ?case by simp
next
  case (Suc n)
  show ?case
  proof (cases "n = 0")
    case True
    have "sim_inv data (Suc 0) (sim_loop data params (Suc 0))"
      unfolding sim_inv_def by (intro exI [of _ "[]"]) (simp add: sim_loop_def)
    then show ?thesis using True by simp
  next
    case False
    with Suc have "sim_inv data n (sim_loop data params n)" "n < length data" by simp_all
    from sim_step_inv [OF this(2) this(1)] False
    show ?thesis by (simp add: sim_loop_Suc)
  qed
qed

lemma trades_metrics: "trades (metrics ts) = ts"
  by (simp add: metrics_def Let_def)

lemma sim_loop_start: "n \<le> 1 \<Longrightarrow> \<not> inTrade (sim_loop data params n) \<and> sim_trades (sim_loop data params n) = []"
  by (simp add: sim_loop_def Let_def)

lemma sim_loop_chain:
  "\<exists>ps. sim_trades (sim_loop data params (length data)) = map (trade_at data) ps \<and>
        (\<forall>k<length ps.
           1 \<le> fst (ps ! k) \<and> fst (ps ! k) < snd (ps ! k) \<and> snd (ps ! k) < length data \<and>
           (Suc k < length ps \<longrightarrow> snd (ps ! k) < fst (ps ! Suc k)))"
proof (cases "length data = 0")
  case True
  then have "sim_trades (sim_loop data params (length data)) = map (trade_at data) []"
    by (simp add: sim_loop_start)
  then show ?thesis by (intro exI [of _ "[]"]) simp
next
  case False
  with sim_loop_inv [of "length data" data params]
  have "sim_inv data (length data) (sim_loop data params (length data))" by simp
  then obtain ps where
    ps: "sim_trades (sim_loop data params (length data)) = map (trade_at data) ps"
        "chained 1 ps" "next_free 1 ps \<le> length data"
    unfolding sim_inv_def by blast
  have "1 \<le> fst (ps ! k) \<and> fst (ps ! k) < snd (ps ! k) \<and> snd (ps ! k) < length data \<and>
           (Suc k < length ps \<longrightarrow> snd (ps ! k) < fst (ps ! Suc k))" if "k < length ps" for k
    using chained_nth [OF ps(2) that] ps(3) by simp
  with ps(1) show ?thesis
    by (intro exI [of _ ps]) simp
qed

text \<open>
  Claim C9. For every series and configuration, the emitted trades are the trades of a
  list of (entry index, exit index) pairs in which every exit index is strictly greater
  than its entry index (and is an index of the series, the entry index being at least 1),
  and in which each entry index is strictly greater than the exit index of the pair
  before it: the positions never overlap. A trade of the source carries dates and prices
  and no index, so the indices are the positions of the series that the trade's dates
  and prices are read from.
\<close>
theorem runBacktest_trades_disjoint:
  "\<exists>ps. trades (runBacktest data params) = map (trade_at data) ps \<and>
        (\<forall>k<length ps.
           1 \<le> fst (ps ! k) \<and> fst (ps ! k) < snd (ps ! k) \<and> snd (ps ! k) < length data \<and>
           (Suc k < length ps \<longrightarrow> snd (ps ! k) < fst (ps ! Suc k)))"
  using sim_loop_chain [of data params] by (simp add: runBacktest_def trades_metrics)

theorem runBacktest_trades_disjoint_witness:
  "\<exists>e x. trades (runBacktest example_series example_params) =
            [trade_at example_series (e, x)] \<and>
          1 \<le> e \<and> e < x \<and> x < 6"
proof -
  from runBacktest_trades_disjoint [of example_series example_params] obtain ps where
    ps: "trades (runBacktest example_series example_params) = map (trade_at example_series) ps"
    and ord: "\<forall>k<length ps.
           1 \<le> fst (ps ! k) \<and> fst (ps ! k) < snd (ps ! k) \<and>
           snd (ps ! k) < length example_series \<and>
           (Suc k < length ps \<longrightarrow> snd (ps ! k) < fst (ps ! Suc k))"
    by blast
  have "length (trades (runBacktest example_series example_params)) = 1"
    by code_simp
  then have "length ps = 1" using ps by simp
  then obtain e x where p: "ps = [(e, x)]"
    by (cases ps) auto
  have "length example_series = 6" by code_simp
  with ord p have "1 \<le> e \<and> e < x \<and> x < 6" by simp
  with ps p show ?thesis by auto
qed

lemma sim_step_exit:
  assumes "n < length data" and "sim_inv data n st" and "inTrade st"
    and "sellSignal line signal n \<or> int n = int (length data) - 1"
  shows "\<exists>ps e. sim_trades (sim_step data (map close data) sma rsi line signal ob n st) =
                  map (trade_at data) (ps @ [(e, n)])"
proof -
  from assms(2,3) obtain ps e where
    ps: "sim_trades st = map (trade_at data) ps"
    and e: "sim_entryPrice st = close (data ! e)" "sim_entryDate st = Some (date (data ! e))"
    unfolding sim_inv_def by blast
  have "js_get (map close data) n = close (data ! n)"
    using assms(1) by (simp add: js_get_def)
  then have "sim_trades (sim_step data (map close data) sma rsi line signal ob n st) =
          map (trade_at data) (ps @ [(e, n)])"
    using assms(3,4) by (simp add: sim_step_def Let_def trade_at_def e ps)
  then show ?thesis by blast
qed

text \<open>
  Claim C2. If a position is open when the loop reaches the final index (the state after
  the iterations \<open>1, ..., length - 2\<close> has \<open>inTrade\<close> set), then the trade list of the run
  is not empty and its last trade is closed at the last index of the series: its exit
  date and exit price are those of the last price point, and its exit index is
  \<open>length - 1\<close>.
\<close>
theorem runBacktest_forced_exit:
  "inTrade (sim_loop data params (length data - 1)) \<Longrightarrow>
   trades (runBacktest data params) \<noteq> [] \<and>
   exitDate (last (trades (runBacktest data params))) = date (last data) \<and>
   exitPrice (last (trades (runBacktest data params))) = close (last data) \<and>
   (\<exists>ps. trades (runBacktest data params) = map (trade_at data) ps \<and>
         snd (last ps) = length data - 1)"
proof -
  assume long: "inTrade (sim_loop data params (length data - 1))"
  define n where "n = length data - 1"
  have n: "1 < n" using long sim_loop_start [of n data params]
    unfolding n_def by (cases "length data - 1 \<le> 1") auto
  then have len: "length data = Suc n" "n < length data" "data \<noteq> []"
    unfolding n_def by auto
  have inv: "sim_inv data n (sim_loop data params n)"
    using sim_loop_inv [of n data params] n len by simp
  have "sim_loop data params (length data) = sim_step data (map close data)
       (calculateSMA (map close data) (maPeriod params))
       (calculateRSI (map close data) (rsiPeriod params))
       (macdLine (calculateMACD (map close data) (macdFast params) (macdSlow params) (macdSignal params)))
       (signalLine (calculateMACD (map close data) (macdFast params) (macdSlow params) (macdSignal params)))
       (rsiOverbought params) n (sim_loop data params n)"
    unfolding len(1) using n by (intro sim_loop_Suc) simp
  moreover have "int n = int (length data) - 1" using len by simp
  ultimately obtain ps e where
    ps: "sim_trades (sim_loop data params (length data)) = map (trade_at data) (ps @ [(e, n)])"
    using sim_step_exit [OF len(2) inv] long unfolding n_def [symmetric] by metis
  have last: "last data = data ! n" using len by (simp add: last_conv_nth)
  have tr: "trades (runBacktest data params) = map (trade_at data) (ps @ [(e, n)])"
    using ps by (simp add: runBacktest_def trades_metrics)
  have "trades (runBacktest data params) \<noteq> []"
    and "exitDate (last (trades (runBacktest data params))) = date (last data)"
    and "exitPrice (last (trades (runBacktest data params))) = close (last data)"
    unfolding tr by (simp_all add: trade_at_def last)
  moreover have "snd (last (ps @ [(e, n)])) = length data - 1" by (simp add: n_def)
  ultimately show ?thesis using tr by blast
qed

theorem runBacktest_forced_exit_witness:
  "inTrade (sim_loop (indexed_series [10, 8, 7, 9, 10, 11]) example_params
             (length (indexed_series [10, 8, 7, 9, 10, 11]) - 1)) \<and>
   exitDate (last (trades (runBacktest (indexed_series [10, 8, 7, 9, 10, 11]) example_params))) = 5"
proof -
  have long: "inTrade (sim_loop (indexed_series [10, 8, 7, 9, 10, 11]) example_params
             (length (indexed_series [10, 8, 7, 9, 10, 11]) - 1))"
    by code_simp
  have "date (last (indexed_series [10, 8, 7, 9, 10, 11])) = 5"
    by code_simp
  with runBacktest_forced_exit [OF long] long show ?thesis by simp
qed

subsection \<open>The performance metrics\<close>

lemma is_num_iff: "is_num v \<longleftrightarrow> (\<exists>a. v = Num a)"
  by (cases v) (simp_all add: is_num_def)

lemma fold_jadd_num:
  assumes "\<And>t. t \<in> set ts \<Longrightarrow> f t = Num (g t)"
  shows "fold (\<lambda>t sum. jadd sum (f t)) ts (Num a) = Num (a + sum_list (map g ts))"
  using assms
proof (induction ts arbitrary: a)
  case Nil
  then show ?case by simp
next
  case (Cons t ts)
  then have "f t = Num (g t)" by simp
  then show ?case using Cons by (simp add: jadd_def add.assoc)
qed

lemma filter_cong_set: "(\<And>t. t \<in> set ts \<Longrightarrow> P t = Q t) \<Longrightarrow> filter P ts = filter Q ts"
  by (induction ts) auto

lemma metrics_numeric:
  assumes num: "\<forall>t\<in>set ts. is_num (pnl t)"
  shows "totalTrades (metrics ts) = length ts"
    and "winRate (metrics ts) =
           (if 0 < length ts then Num (100 * real (wins_spec ts) / real (length ts)) else Num 0)"
    and "profitFactor (metrics ts) =
           (if grossLoss_spec ts = 0 then PInf else Num (grossProfit_spec ts / grossLoss_spec ts))"
proof -
  have n: "pnl t = Num (num_of (pnl t))" if "t \<in> set ts" for t
    using num that by (auto simp: is_num_iff)
  have cmp: "jgt (pnl t) (Num 0) = (0 < num_of (pnl t)) \<and> jlt (pnl t) (Num 0) = (num_of (pnl t) < 0)"
    if "t \<in> set ts" for t
  proof -
    from num that obtain a where "pnl t = Num a" by (auto simp: is_num_iff)
    then show ?thesis by (simp add: jgt_def jlt_def)
  qed
  have W: "filter (\<lambda>t. jgt (pnl t) (Num 0)) ts = filter (\<lambda>t. 0 < num_of (pnl t)) ts"
    by (rule filter_cong_set) (simp add: cmp)
  have L: "filter (\<lambda>t. jlt (pnl t) (Num 0)) ts = filter (\<lambda>t. num_of (pnl t) < 0) ts"
    by (rule filter_cong_set) (simp add: cmp)
  have gp: "fold (\<lambda>t sum. jadd sum (pnl t)) (filter (\<lambda>t. 0 < num_of (pnl t)) ts) (Num 0) =
            Num (grossProfit_spec ts)"
    unfolding grossProfit_spec_def
    using fold_jadd_num [of "filter (\<lambda>t. 0 < num_of (pnl t)) ts" pnl "\<lambda>t. num_of (pnl t)" 0] n
    by simp
  have gl: "fold (\<lambda>t sum. jadd sum (math_abs (pnl t))) (filter (\<lambda>t. num_of (pnl t) < 0) ts) (Num 0) =
            Num (grossLoss_spec ts)"
  proof -
    have "math_abs (pnl t) = Num \<bar>num_of (pnl t)\<bar>" if "t \<in> set ts" for t
      using n [OF that] by (metis math_abs.simps(1))
    then show ?thesis
      unfolding grossLoss_spec_def
      using fold_jadd_num [of "filter (\<lambda>t. num_of (pnl t) < 0) ts" "\<lambda>t. math_abs (pnl t)"
                              "\<lambda>t. \<bar>num_of (pnl t)\<bar>" 0]
      by simp
  qed
  show "totalTrades (metrics ts) = length ts"
    by (simp add: metrics_def Let_def)
  show "winRate (metrics ts) =
           (if 0 < length ts then Num (100 * real (wins_spec ts) / real (length ts)) else Num 0)"
    by (simp add: metrics_def Let_def W wins_spec_def jmul_def jdiv_def)
  show "profitFactor (metrics ts) =
           (if grossLoss_spec ts = 0 then PInf else Num (grossProfit_spec ts / grossLoss_spec ts))"
    by (simp add: metrics_def Let_def W L gp gl jdiv_def)
qed

lemma numeric_close: "numeric_series data \<Longrightarrow> i < length data \<Longrightarrow> \<exists>c. close (data ! i) = Num c"
  by (simp add: numeric_series_def list_all_length is_num_iff)

lemma numeric_trades:
  assumes "numeric_series data"
  shows "\<forall>t\<in>set (sim_trades (sim_loop data params (length data))). is_num (pnl t)"
proof -
  from sim_loop_chain [of data params] obtain ps where
    ps: "sim_trades (sim_loop data params (length data)) = map (trade_at data) ps"
    and ord: "\<And>k. k < length ps \<Longrightarrow> fst (ps ! k) < snd (ps ! k) \<and> snd (ps ! k) < length data"
    by blast
  have "is_num (pnl (trade_at data p))" if "p \<in> set ps" for p
  proof -
    from that obtain k where k: "k < length ps" "p = ps ! k" by (auto simp: in_set_conv_nth)
    with ord [OF k(1)] have "fst p < length data" "snd p < length data" by simp_all
    with numeric_close [OF assms] obtain a b where
      "close (data ! fst p) = Num a" "close (data ! snd p) = Num b" by blast
    then show ?thesis by (simp add: trade_at_def jsub_def is_num_def)
  qed
  then show ?thesis by (simp add: ps)
qed

text \<open>
  Claim C8. For a series of finite closes and every configuration, every trade of the
  run has a finite profit, and the aggregator returns: \<open>totalTrades\<close>, the number of
  trades; \<open>winRate\<close>, \<open>100 * wins / totalTrades\<close> when there is a trade and 0 when there is
  none; \<open>profitFactor\<close>, the infinite sentinel exactly when the gross loss is 0 (whatever
  the gross profit) and \<open>grossProfit / grossLoss\<close> otherwise. Both results are numbers or
  the sentinel: no division by zero is evaluated.
\<close>
theorem runBacktest_metrics:
  "numeric_series data \<Longrightarrow>
   (\<forall>t\<in>set (trades (runBacktest data params)). is_num (pnl t)) \<and>
   totalTrades (runBacktest data params) = length (trades (runBacktest data params)) \<and>
   winRate (runBacktest data params) =
     (if 0 < length (trades (runBacktest data params))
      then Num (100 * real (wins_spec (trades (runBacktest data params)))
                  / real (length (trades (runBacktest data params))))
      else Num 0) \<and>
   (profitFactor (runBacktest data params) = PInf \<longleftrightarrow>
      grossLoss_spec (trades (runBacktest data params)) = 0) \<and>
   (grossLoss_spec (trades (runBacktest data params)) \<noteq> 0 \<longrightarrow>
      profitFactor (runBacktest data params) =
        Num (grossProfit_spec (trades (runBacktest data params))
               / grossLoss_spec (trades (runBacktest data params))))"
proof -
  assume "numeric_series data"
  define ts where "ts = sim_trades (sim_loop data params (length data))"
  have num: "\<forall>t\<in>set ts. is_num (pnl t)"
    unfolding ts_def using \<open>numeric_series data\<close> by (rule numeric_trades)
  have r: "runBacktest data params = metrics ts" "trades (runBacktest data params) = ts"
    by (simp_all add: runBacktest_def ts_def trades_metrics)
  show ?thesis
    unfolding r trades_metrics using num metrics_numeric [OF num] by simp
qed

theorem runBacktest_metrics_witness:
  "numeric_series example_series \<and>
   totalTrades (runBacktest example_series example_params) = 1 \<and>
   winRate (runBacktest example_series example_params) = Num 0 \<and>
   profitFactor (runBacktest example_series example_params) \<noteq> PInf"
proof -
  have num: "numeric_series example_series"
    by code_simp
  have tr: "trades (runBacktest example_series example_params) =
          [\<lparr>entryDate = Some 3, exitDate = 4, entryPrice = Num 9, exitPrice = Num 5,
            pnl = Num (- 4)\<rparr>]"
    by code_simp
  from runBacktest_metrics [OF num, of example_params] num show ?thesis
    unfolding tr by (simp add: wins_spec_def grossLoss_spec_def)
qed

lemma runBacktest_metrics_no_trades:
  "profitFactor (runBacktest (indexed_series [10]) example_params) = PInf \<and>
   winRate (runBacktest (indexed_series [10]) example_params) = Num 0 \<and>
   totalTrades (runBacktest (indexed_series [10]) example_params) = 0"
  by code_simp

subsection \<open>Undefined indicator values in the entry and exit conditions\<close>

lemma buySignal_defined:
  "buySignal closes sma rsi line signal overbought i \<Longrightarrow>
     js_get line (i - 1) \<noteq> Null \<and> js_get line i \<noteq> Null \<and> js_get rsi i \<noteq> Null"
  by (simp add: buySignal_def)

text \<open>
  Claim C1 says that an index where the SMA is undefined never opens a position. The
  entry condition guards the MACD line and the RSI against \<^verbatim>\<open>null\<close> (lemma
  \<open>buySignal_defined\<close>) but compares \<^verbatim>\<open>closes[i] > sma[i]\<close> unguarded, and a \<^verbatim>\<open>null\<close>
  SMA is compared as 0. With closes 10, 8, 7, 9, 5, 5 and an SMA period of 100 (the other
  indicators being defined from index 2 on), the SMA is \<^verbatim>\<open>null\<close> at index 3, no position
  is open before iteration 3, one is open after it, and the run reports the trade entered
  at index 3.
\<close>

theorem entry_with_undefined_SMA:
  "js_get (calculateSMA (map close example_series) 100) 3 = Null \<and>
   \<not> inTrade (sim_loop example_series (example_params\<lparr>maPeriod := 100\<rparr>) 3) \<and>
   inTrade (sim_loop example_series (example_params\<lparr>maPeriod := 100\<rparr>) 4) \<and>
   trades (runBacktest example_series (example_params\<lparr>maPeriod := 100\<rparr>)) =
     [trade_at example_series (3, 4)]"
  by code_simp

lemma sma_step_short:
  "int i < int period - 1 \<Longrightarrow> fst (sma_step values period i st) = fst st"
  by (cases st) (simp add: sma_step_def Let_def)

lemma calculateSMA_short:
  assumes "length values < period"
  shows "calculateSMA values period = replicate (length values) Null"
proof -
  have "fst (fold (sma_step values period) [0..<n] (replicate (length values) Null, Num 0)) =
          replicate (length values) Null" if "n \<le> length values" for n
    using that
  proof (induction n)
    case 0
    then show ?case by simp
  next
    case (Suc n)
    then have "int n < int period - 1" using assms by simp
    from sma_step_short [OF this] Suc show ?case by simp
  qed
  then show ?thesis by (simp add: calculateSMA_def)
qed

lemma ema_step_short:
  "int i < int period - 1 \<Longrightarrow> fst (ema_step values period k i st) = fst st"
  by (cases st) (simp add: ema_step_def Let_def)

lemma calculateEMA_short:
  assumes "length values < period"
  shows "calculateEMA values period = replicate (length values) Null"
proof -
  have "fst (ema_loop values period n) = replicate (length values) Null"
    if "n \<le> length values" for n
    using that
  proof (induction n)
    case 0
    then show ?case by (simp add: ema_loop_def)
  next
    case (Suc n)
    then have "int n < int period - 1" using assms by simp
    from ema_step_short [OF this] Suc show ?case by (simp add: ema_loop_def Let_def)
  qed
  then show ?thesis by (simp add: calculateEMA_def)
qed

text \<open>
  Claim C3 holds for \<open>calculateSMA\<close> and \<open>calculateEMA\<close> (lemmas \<open>calculateSMA_short\<close> and
  \<open>calculateEMA_short\<close>, for every array of values). \<open>calculateRSI\<close> has no such guard: on a
  series of 3 values with period 5 the seeding loop reads past the end, the averages
  become NaN, and the write at index 5 extends the array to length 6 with NaN in it.
\<close>

theorem calculateRSI_short_series:
  "calculateRSI [Num 1, Num 2, Num 3] 5 = [Null, Null, Null, Undefined, Undefined, NaN]"
  by code_simp

lemma toNumber_null_as_zero: "toNumber (js_get (map null_as_zero signal) i) = toNumber (js_get signal i)"
  by (simp add: js_get_def null_as_zero_def)

text \<open>
  Claim C10. The entry and exit conditions are unchanged when every \<^verbatim>\<open>null\<close> of the signal
  line is replaced by 0: the crossover comparisons treat a \<^verbatim>\<open>null\<close> signal value as the
  number 0. With a signal period (100) greater than both MACD periods (1 and 2) and closes
  10, 8, 7, 9, 5, 5, the signal line is \<^verbatim>\<open>null\<close> at every index; the position is opened
  by iteration 3 and closed by iteration 4, through the exit condition and before the last
  index (5).
\<close>

theorem crossover_against_null_signal:
  "(\<forall>closes sma rsi line signal overbought i.
      buySignal closes sma rsi line signal overbought i =
        buySignal closes sma rsi line (map null_as_zero signal) overbought i \<and>
      sellSignal line signal i = sellSignal line (map null_as_zero signal) i) \<and>
   macdFast (example_params\<lparr>macdSignal := 100\<rparr>) < 100 \<and>
   macdSlow (example_params\<lparr>macdSignal := 100\<rparr>) < 100 \<and>
   signalLine (calculateMACD (map close example_series) 1 2 100) = replicate 6 Null \<and>
   \<not> inTrade (sim_loop example_series (example_params\<lparr>macdSignal := 100\<rparr>) 3) \<and>
   inTrade (sim_loop example_series (example_params\<lparr>macdSignal := 100\<rparr>) 4) \<and>
   sim_trades (sim_loop example_series (example_params\<lparr>macdSignal := 100\<rparr>) 5) =
     [trade_at example_series (3, 4)] \<and>
   sellSignal (macdLine (calculateMACD (map close example_series) 1 2 100))
              (signalLine (calculateMACD (map close example_series) 1 2 100)) 4 \<and>
   length example_series = 6"
proof -
  have "buySignal closes sma rsi line signal overbought i =
          buySignal closes sma rsi line (map null_as_zero signal) overbought i \<and>
        sellSignal line signal i = sellSignal line (map null_as_zero signal) i"
    for closes sma rsi line signal overbought i
    by (simp add: buySignal_def sellSignal_def jle_def jge_def jgt_def jlt_def
          toNumber_null_as_zero)
  moreover have "macdFast (example_params\<lparr>macdSignal := 100\<rparr>) < 100"
    and "macdSlow (example_params\<lparr>macdSignal := 100\<rparr>) < 100"
    and "signalLine (calculateMACD (map close example_series) 1 2 100) = replicate 6 Null"
    and "\<not> inTrade (sim_loop example_series (example_params\<lparr>macdSignal := 100\<rparr>) 3)"
    and "inTrade (sim_loop example_series (example_params\<lparr>macdSignal := 100\<rparr>) 4)"
    and "sim_trades (sim_loop example_series (example_params\<lparr>macdSignal := 100\<rparr>) 5) =
           [trade_at example_series (3, 4)]"
    and "sellSignal (macdLine (calculateMACD (map close example_series) 1 2 100))
              (signalLine (calculateMACD (map close example_series) 1 2 100)) 4"
    and "length example_series = 6"
    by code_simp+
  ultimately show ?thesis by blast
qed

text \<open>
  A position opened by the last iteration is never closed: the run ends with the position
  open and reports no trade for it.
\<close>

lemma entry_at_final_bar_stays_open:
  "inTrade (sim_loop (indexed_series [10, 8, 7, 9]) example_params
             (length (indexed_series [10, 8, 7, 9]))) \<and>
   trades (runBacktest (indexed_series [10, 8, 7, 9]) example_params) = []"
  by code_simp

end
